theory Spec2Isabelle
  imports Complex_Main "HOL-Library.Sublist" "HOL-Library.Multiset"
begin

section \<open>Credit scoring model: data model\<close>

text \<open>
  Shallow embedding of \<^verbatim>\<open>src/model.py\<close>, with two readings of its float
  arithmetic.

  In the exact reading \<open>+\<close>, \<open>*\<close>, \<open>/\<close>, \<open>exp\<close> and the comparisons are those of
  \<^typ>\<open>real\<close>. It serves the properties that do not depend on the value a float
  operation returns: validation, the branch the normalizer takes, the decision policy
  as a function of its argument, the oversight gate, the order of the explanation,
  and the frame and determinism of \<^verbatim>\<open>predict\<close>.

  In the double reading (names ending in \<open>_d\<close>) every operation is rounded to a
  double, as CPython and NumPy do. It serves the properties of the values the score
  path computes.

  A Python \<^verbatim>\<open>dict\<close> is an association list in insertion order; a well-formed dict
  has distinct keys.
\<close>

type_synonym dict = "(string \<times> real) list"

text \<open>\<^verbatim>\<open>d[k] = v\<close>: overwrite in place when the key exists, append otherwise.\<close>

fun setitem :: "string \<Rightarrow> real \<Rightarrow> dict \<Rightarrow> dict" where
  "setitem k v [] = [(k, v)]"
| "setitem k v ((k', v') # d) =
     (if k' = k then (k', v) # d else (k', v') # setitem k v d)"

text \<open>\<^verbatim>\<open>dict(items)\<close>: insert the pairs one after the other into an empty dict.\<close>

definition dict_of :: "(string \<times> real) list \<Rightarrow> dict" where
  "dict_of items = fold (\<lambda>(k, v) d. setitem k v d) items []"

text \<open>
  \<^verbatim>\<open>sorted(xs, key=key, reverse=True)\<close>: CPython reverses the list, sorts it with a
  stable ascending sort and reverses the result.
\<close>

definition sorted_reverse :: "('a \<Rightarrow> real) \<Rightarrow> 'a list \<Rightarrow> 'a list" where
  "sorted_reverse key xs = rev (sort_key key (rev xs))"

text \<open>
  \<^verbatim>\<open>round(x, 4)\<close>: the nearest multiple of \<open>10\<^sup>-\<^sup>4\<close>, a tie going to the even
  multiple.
\<close>

definition round_half_even :: "real \<Rightarrow> int" where
  "round_half_even x =
     (let f = \<lfloor>x\<rfloor>; d = x - of_int f in
      if d < 1 / 2 then f
      else if 1 / 2 < d then f + 1
      else if even f then f else f + 1)"

definition round4 :: "real \<Rightarrow> real" where
  "round4 x = of_int (round_half_even (x * 10000)) / 10000"

record CreditPrediction =
  score :: real
  decision :: string
  confidence :: real
  explanation :: dict
  model_version :: string
  timestamp :: string

record model =
  weights :: dict
  intercept :: real

datatype error = ValueError "string set"

section \<open>CreditScoringModel\<close>

definition VERSION :: string where
  "VERSION = ''2.1.0''"

definition FEATURES :: "string list" where
  "FEATURES =
     [''debt_to_income'', ''credit_utilization'', ''payment_history_score'',
      ''account_age_months'', ''inquiry_count_6mo'', ''income_stability'',
      ''employment_length'', ''existing_accounts'']"

definition THRESHOLD :: real where
  "THRESHOLD = 0.5"

definition create_demo_model :: model where
  "create_demo_model =
     \<lparr>weights =
        [(''debt_to_income'', -0.35), (''credit_utilization'', -0.25),
         (''payment_history_score'', 0.30), (''account_age_months'', 0.15),
         (''inquiry_count_6mo'', -0.10), (''income_stability'', 0.20),
         (''employment_length'', 0.10), (''existing_accounts'', 0.05)],
      intercept = 0.5\<rparr>"

text \<open>
  \<^verbatim>\<open>_validate_features\<close>: the exception carries the set of missing names (the source
  formats it into the message).
\<close>

definition validate_features :: "dict \<Rightarrow> error + unit" where
  "validate_features features =
     (let missing = set FEATURES - set (map fst features) in
      if missing \<noteq> {} then Inl (ValueError missing) else Inr ())"

text \<open>
  The expression on lines 137 and 151:
  \<^verbatim>\<open>features[feature] / 100.0 if features[feature] > 1 else features[feature]\<close>.
\<close>

definition normalized :: "real \<Rightarrow> real" where
  "normalized v = (if v > 1 then v / 100 else v)"

text \<open>
  The loop of \<^verbatim>\<open>_calculate_score\<close> over \<^verbatim>\<open>weights.items()\<close>, with the running
  \<^verbatim>\<open>score\<close> as \<open>s\<close>. The guard \<^verbatim>\<open>feature in features\<close> and the read
  \<^verbatim>\<open>features[feature]\<close> are one lookup.
\<close>

fun score_loop :: "dict \<Rightarrow> dict \<Rightarrow> real \<Rightarrow> real" where
  "score_loop [] features s = s"
| "score_loop ((feature, weight) # rest) features s =
     (case map_of features feature of
        Some v \<Rightarrow> score_loop rest features (s + weight * normalized v)
      | None \<Rightarrow> score_loop rest features s)"

text \<open>The value of \<^verbatim>\<open>score\<close> when the loop is left, before the sigmoid.\<close>

definition linear_sum :: "model \<Rightarrow> dict \<Rightarrow> real" where
  "linear_sum m features = score_loop (weights m) features (intercept m)"

definition calculate_score :: "model \<Rightarrow> dict \<Rightarrow> real" where
  "calculate_score m features =
     (let s = linear_sum m features in 1 / (1 + exp (- s * 2)))"

text \<open>
  The loop of \<^verbatim>\<open>_generate_explanation\<close>, with the dict \<^verbatim>\<open>explanation\<close> built
  so far as \<open>expl\<close>.
\<close>

fun explanation_loop :: "dict \<Rightarrow> dict \<Rightarrow> dict \<Rightarrow> dict" where
  "explanation_loop [] features expl = expl"
| "explanation_loop ((feature, weight) # rest) features expl =
     (case map_of features feature of
        Some v \<Rightarrow>
          (let contribution = weight * normalized v in
           explanation_loop rest features
             (setitem feature (round4 contribution) expl))
      | None \<Rightarrow> explanation_loop rest features expl)"

definition generate_explanation :: "model \<Rightarrow> dict \<Rightarrow> dict" where
  "generate_explanation m features =
     (let expl = explanation_loop (weights m) features [] in
      dict_of (sorted_reverse (\<lambda>x. \<bar>snd x\<bar>) expl))"

text \<open>
  The values of the local \<^verbatim>\<open>contribution\<close> (line 152) in loop order, before
  \<^verbatim>\<open>round\<close> is applied to them.
\<close>

fun contributions :: "dict \<Rightarrow> dict \<Rightarrow> (string \<times> real) list" where
  "contributions [] features = []"
| "contributions ((feature, weight) # rest) features =
     (case map_of features feature of
        Some v \<Rightarrow> (feature, weight * normalized v) # contributions rest features
      | None \<Rightarrow> contributions rest features)"

text \<open>Lines 105 to 109 of \<^verbatim>\<open>predict\<close>: the decision and its confidence.\<close>

definition decide :: "real \<Rightarrow> string \<times> real" where
  "decide s =
     (let d = (if s \<ge> THRESHOLD then ''approved'' else ''denied'');
          c = \<bar>s - THRESHOLD\<bar> / THRESHOLD;
          c = min c 1
      in (d, c))"

text \<open>
  \<^verbatim>\<open>predict\<close>. The clock reading that \<^verbatim>\<open>__post_init__\<close> stores in
  \<^verbatim>\<open>timestamp\<close> is the parameter \<open>now\<close>.
\<close>

definition predict :: "model \<Rightarrow> string \<Rightarrow> dict \<Rightarrow> error + CreditPrediction" where
  "predict m now features =
     (case validate_features features of
        Inl e \<Rightarrow> Inl e
      | Inr _ \<Rightarrow>
          (let s = calculate_score m features;
               (d, c) = decide s;
               e = generate_explanation m features
           in Inr \<lparr>score = round4 s, decision = d, confidence = round4 c,
                   explanation = e, model_version = VERSION, timestamp = now\<rparr>))"

section \<open>HumanOversight\<close>

definition REVIEW_THRESHOLD_LOW :: real where
  "REVIEW_THRESHOLD_LOW = 0.4"

definition REVIEW_THRESHOLD_HIGH :: real where
  "REVIEW_THRESHOLD_HIGH = 0.6"

definition requires_review :: "CreditPrediction \<Rightarrow> bool \<times> string" where
  "requires_review prediction =
     (if REVIEW_THRESHOLD_LOW \<le> score prediction
         \<and> score prediction \<le> REVIEW_THRESHOLD_HIGH
      then (True, ''Borderline score requires human review'')
      else if confidence prediction < 0.3
      then (True, ''Low confidence prediction'')
      else (False, ''''))"

section \<open>The pipeline over an object store\<close>

text \<open>
  Python passes dicts by reference. The store is the list of the dicts allocated so
  far and a reference is an index into it. \<^verbatim>\<open>predict\<close> receives the reference
  \<open>fr\<close> of the caller's feature dict; \<^verbatim>\<open>_generate_explanation\<close> allocates the dict
  \<^verbatim>\<open>explanation = {}\<close>, writes to it inside the loop while it reads the features
  through \<open>fr\<close>, and allocates the dict that \<^verbatim>\<open>dict(sorted(...))\<close> returns.
  Validation and scoring only read. A reference the program holds is always
  allocated, so the properties below are stated for \<open>fr < length h\<close>.
\<close>

type_synonym heap = "dict list"

definition new_dict :: "dict \<Rightarrow> heap \<Rightarrow> nat \<times> heap" where
  "new_dict d h = (length h, h @ [d])"

fun explanation_loop_h :: "dict \<Rightarrow> nat \<Rightarrow> nat \<Rightarrow> heap \<Rightarrow> heap" where
  "explanation_loop_h [] fr er h = h"
| "explanation_loop_h ((feature, weight) # rest) fr er h =
     (case map_of (h ! fr) feature of
        Some v \<Rightarrow>
          (let contribution = weight * normalized v in
           explanation_loop_h rest fr er
             (h[er := setitem feature (round4 contribution) (h ! er)]))
      | None \<Rightarrow> explanation_loop_h rest fr er h)"

definition generate_explanation_h :: "model \<Rightarrow> nat \<Rightarrow> heap \<Rightarrow> nat \<times> heap" where
  "generate_explanation_h m fr h =
     (let (er, h1) = new_dict [] h;
          h2 = explanation_loop_h (weights m) fr er h1;
          (sr, h3) = new_dict (dict_of (sorted_reverse (\<lambda>x. \<bar>snd x\<bar>) (h2 ! er))) h2
      in (sr, h3))"

definition predict_h ::
  "model \<Rightarrow> string \<Rightarrow> nat \<Rightarrow> heap \<Rightarrow> (error + CreditPrediction) \<times> heap" where
  "predict_h m now fr h =
     (case validate_features (h ! fr) of
        Inl e \<Rightarrow> (Inl e, h)
      | Inr _ \<Rightarrow>
          (let s = calculate_score m (h ! fr);
               (d, c) = decide s;
               (sr, h') = generate_explanation_h m fr h
           in (Inr \<lparr>score = round4 s, decision = d, confidence = round4 c,
                    explanation = h' ! sr, model_version = VERSION, timestamp = now\<rparr>,
               h')))"

section \<open>Double-precision arithmetic\<close>

text \<open>
  The double reading of the score path. A finite double is a real number; every
  operation computes the exact result and rounds it to the nearest double, a tie
  going to the even significand (IEEE 754 binary64: 53-bit significand, exponents
  from \<open>-1022\<close>, subnormal numbers below \<open>2\<^sup>-\<^sup>1\<^sup>0\<^sup>2\<^sup>2\<close>). \<open>expo x\<close> is the exponent of the
  binade of \<open>x\<close>, \<open>ulp x\<close> the spacing of the doubles in it.

  Results beyond the largest double are modelled where finite features and the demo
  weights can produce them, at \<^verbatim>\<open>np.exp\<close> (see \<open>calculate_score_d\<close>): the products
  and the running sum stay finite there, and where the doubling before \<^verbatim>\<open>np.exp\<close>
  would overflow the sigmoid has the same value as for the finite argument.
\<close>

definition expo :: "real \<Rightarrow> int" where
  "expo x = max (- 1022) \<lfloor>log 2 \<bar>x\<bar>\<rfloor>"

definition ulp :: "real \<Rightarrow> real" where
  "ulp x = 2 powi (expo x - 52)"

definition fl :: "real \<Rightarrow> real" where
  "fl x = of_int (round_half_even (x / ulp x)) * ulp x"

definition fadd :: "real \<Rightarrow> real \<Rightarrow> real" where
  "fadd a b = fl (a + b)"

definition fsub :: "real \<Rightarrow> real \<Rightarrow> real" where
  "fsub a b = fl (a - b)"

definition fmul :: "real \<Rightarrow> real \<Rightarrow> real" where
  "fmul a b = fl (a * b)"

definition fdiv :: "real \<Rightarrow> real \<Rightarrow> real" where
  "fdiv a b = fl (a / b)"

text \<open>
  Python reads the decimal literals of \<^verbatim>\<open>_create_demo_model\<close> as the nearest
  doubles.
\<close>

definition f64_model :: "model \<Rightarrow> model" where
  "f64_model m = \<lparr>weights = map (apsnd fl) (weights m), intercept = fl (intercept m)\<rparr>"

text \<open>Lines 137 and 151, with the division rounded.\<close>

definition normalized_d :: "real \<Rightarrow> real" where
  "normalized_d v = (if v > 1 then fdiv v 100 else v)"

text \<open>
  The loop of \<^verbatim>\<open>_calculate_score\<close>: \<^verbatim>\<open>score += weight * normalized\<close> rounds the
  product, then the sum.
\<close>

fun score_loop_d :: "dict \<Rightarrow> dict \<Rightarrow> real \<Rightarrow> real" where
  "score_loop_d [] features s = s"
| "score_loop_d ((feature, weight) # rest) features s =
     (case map_of features feature of
        Some v \<Rightarrow> score_loop_d rest features (fadd s (fmul weight (normalized_d v)))
      | None \<Rightarrow> score_loop_d rest features s)"

definition linear_sum_d :: "model \<Rightarrow> dict \<Rightarrow> real" where
  "linear_sum_d m features = score_loop_d (weights m) features (intercept m)"

text \<open>
  Line 141, \<^verbatim>\<open>1 / (1 + np.exp(-score * 2))\<close>. \<^verbatim>\<open>np.exp\<close> is a library function
  outside the source: it is the parameter \<open>npexp\<close>, which returns a double or
  \<^verbatim>\<open>inf\<close>, written \<open>None\<close>. When it returns \<^verbatim>\<open>inf\<close>, \<^verbatim>\<open>1 + inf\<close> is \<^verbatim>\<open>inf\<close> and
  \<^verbatim>\<open>1 / inf\<close> is \<^verbatim>\<open>0.0\<close>.
\<close>

definition calculate_score_d :: "(real \<Rightarrow> real option) \<Rightarrow> model \<Rightarrow> dict \<Rightarrow> real" where
  "calculate_score_d npexp m features =
     (let s = linear_sum_d m features in
      case npexp (fmul (- s) 2) of
        None \<Rightarrow> 0
      | Some e \<Rightarrow> fdiv 1 (fadd 1 e))"

text \<open>
  The correctly rounded exponential, one function \<open>npexp\<close> can be: the double nearest
  to \<open>exp z\<close>, and \<^verbatim>\<open>inf\<close> when \<open>exp z\<close> rounds beyond the largest double (from
  \<open>2\<^sup>1\<^sup>0\<^sup>2\<^sup>4 - 2\<^sup>9\<^sup>7\<^sup>0\<close> on). It is used where a value is computed; there every
  exponential returns the same: 1 at 0, 0 far below the smallest double, \<^verbatim>\<open>inf\<close> far
  above the largest.
\<close>

definition exp_rn :: "real \<Rightarrow> real option" where
  "exp_rn z = (if 2 ^ 1024 - 2 ^ 970 \<le> exp z then None else Some (fl (exp z)))"

text \<open>
  The values of the local \<^verbatim>\<open>contribution\<close> (line 152) in loop order, before
  \<^verbatim>\<open>round\<close> is applied to them.
\<close>

fun contributions_d :: "dict \<Rightarrow> dict \<Rightarrow> (string \<times> real) list" where
  "contributions_d [] features = []"
| "contributions_d ((feature, weight) # rest) features =
     (case map_of features feature of
        Some v \<Rightarrow> (feature, fmul weight (normalized_d v)) # contributions_d rest features
      | None \<Rightarrow> contributions_d rest features)"

text \<open>
  \<^verbatim>\<open>round(x, 4)\<close> of a Python float: the double nearest to the correctly rounded
  decimal.
\<close>

definition round4_d :: "real \<Rightarrow> real" where
  "round4_d x = fl (round4 x)"

fun explanation_loop_d :: "dict \<Rightarrow> dict \<Rightarrow> dict \<Rightarrow> dict" where
  "explanation_loop_d [] features expl = expl"
| "explanation_loop_d ((feature, weight) # rest) features expl =
     (case map_of features feature of
        Some v \<Rightarrow>
          (let contribution = fmul weight (normalized_d v) in
           explanation_loop_d rest features
             (setitem feature (round4_d contribution) expl))
      | None \<Rightarrow> explanation_loop_d rest features expl)"

definition generate_explanation_d :: "model \<Rightarrow> dict \<Rightarrow> dict" where
  "generate_explanation_d m features =
     (let expl = explanation_loop_d (weights m) features [] in
      dict_of (sorted_reverse (\<lambda>x. \<bar>snd x\<bar>) expl))"

text \<open>
  \<^verbatim>\<open>round(x, 4)\<close> of a NumPy \<^verbatim>\<open>float64\<close>, which the score and the confidence are
  since \<^verbatim>\<open>np.exp\<close> returns one: NumPy multiplies by \<open>10\<^sup>4\<close>, rounds to the nearest
  integer (ties to even) and divides by \<open>10\<^sup>4\<close>, each step in double arithmetic.
\<close>

definition around4 :: "real \<Rightarrow> real" where
  "around4 x = fdiv (of_int (round_half_even (fmul x 10000))) 10000"

definition decide_d :: "real \<Rightarrow> string \<times> real" where
  "decide_d s =
     (let d = (if s \<ge> THRESHOLD then ''approved'' else ''denied'');
          c = fdiv \<bar>fsub s THRESHOLD\<bar> THRESHOLD;
          c = min c 1
      in (d, c))"

definition predict_d ::
  "(real \<Rightarrow> real option) \<Rightarrow> model \<Rightarrow> string \<Rightarrow> dict \<Rightarrow> error + CreditPrediction" where
  "predict_d npexp m now features =
     (case validate_features features of
        Inl e \<Rightarrow> Inl e
      | Inr _ \<Rightarrow>
          (let s = calculate_score_d npexp m features;
               (d, c) = decide_d s;
               e = generate_explanation_d m features
           in Inr \<lparr>score = around4 s, decision = d, confidence = around4 c,
                   explanation = e, model_version = VERSION, timestamp = now\<rparr>))"

section \<open>Fixtures\<close>

text \<open>The sample input of the demo at the end of \<^verbatim>\<open>model.py\<close>.\<close>

definition sample_features :: dict where
  "sample_features =
     [(''debt_to_income'', 35.0), (''credit_utilization'', 45.0),
      (''payment_history_score'', 85.0), (''account_age_months'', 48),
      (''inquiry_count_6mo'', 2), (''income_stability'', 0.8),
      (''employment_length'', 36), (''existing_accounts'', 5)]"

text \<open>A prediction record with a given score and confidence.\<close>

definition prediction_at :: "real \<Rightarrow> real \<Rightarrow> CreditPrediction" where
  "prediction_at s c =
     \<lparr>score = s, decision = (if 0.5 \<le> s then ''approved'' else ''denied''),
      confidence = c, explanation = [], model_version = VERSION, timestamp = []\<rparr>"

text \<open>
  All required features, with a tie: \<^verbatim>\<open>income_stability\<close> and
  \<^verbatim>\<open>employment_length\<close> both contribute 0.1.
\<close>

definition tied_features :: dict where
  "tied_features =
     [(''debt_to_income'', 0), (''credit_utilization'', 0),
      (''payment_history_score'', 0), (''account_age_months'', 0),
      (''inquiry_count_6mo'', 0), (''income_stability'', 0.5),
      (''employment_length'', 1), (''existing_accounts'', 2)]"

text \<open>All required features, with one very large raw value.\<close>

definition saturating_features :: dict where
  "saturating_features =
     [(''debt_to_income'', 0), (''credit_utilization'', 0),
      (''payment_history_score'', 10000000), (''account_age_months'', 0),
      (''inquiry_count_6mo'', 0), (''income_stability'', 0),
      (''employment_length'', 0), (''existing_accounts'', 0)]"

text \<open>All required features, with the same very large raw value at a negative weight.\<close>

definition vanishing_features :: dict where
  "vanishing_features =
     [(''debt_to_income'', 10000000), (''credit_utilization'', 0),
      (''payment_history_score'', 0), (''account_age_months'', 0),
      (''inquiry_count_6mo'', 0), (''income_stability'', 0),
      (''employment_length'', 0), (''existing_accounts'', 0)]"

text \<open>
  All required features, with two large raw values whose contributions cancel
  (\<open>10\<^sup>2\<^sup>0\<close> at the weights \<open>-0.10\<close> and \<open>0.10\<close>).
\<close>

definition cancelling_features :: dict where
  "cancelling_features =
     [(''debt_to_income'', 0), (''credit_utilization'', 0),
      (''payment_history_score'', 0), (''account_age_months'', 0),
      (''inquiry_count_6mo'', 100000000000000000000), (''income_stability'', 0),
      (''employment_length'', 100000000000000000000), (''existing_accounts'', 0)]"

section \<open>Dictionaries and sorting\<close>

lemma setitem_fresh: "k \<notin> set (map fst d) \<Longrightarrow> setitem k v d = d @ [(k, v)]"
  by (induction d) auto

lemma dict_of_fold:
  "distinct (map fst (acc @ items)) \<Longrightarrow>
   fold (\<lambda>(k, v) d. setitem k v d) items acc = acc @ items"
proof (induction items arbitrary: acc)
  case Nil
  then show ?case by simp
next
  case (Cons x items)
  obtain k v where x: "x = (k, v)" by (cases x)
  from Cons.prems have fresh: "k \<notin> set (map fst acc)" by (auto simp: x)
  from Cons.prems have "distinct (map fst ((acc @ [(k, v)]) @ items))" by (simp add: x)
  from Cons.IH [OF this] show ?case by (simp add: x setitem_fresh [OF fresh])
qed

lemma dict_of_distinct: "distinct (map fst items) \<Longrightarrow> dict_of items = items"
  using dict_of_fold [of "[]" items] by (simp add: dict_of_def)

lemma sorted_reverse_descending:
  "sorted_wrt (\<lambda>a b. b \<le> a) (map key (sorted_reverse key xs))"
proof -
  have "sorted (map key (sort_key key (rev xs)))" by simp
  then have "sorted (rev (map key (sorted_reverse key xs)))"
    by (simp add: sorted_reverse_def rev_map)
  then have "sorted_wrt (\<lambda>a b. b \<le> a) (rev (rev (map key (sorted_reverse key xs))))"
    unfolding sorted_wrt_rev .
  then show ?thesis by simp
qed

lemma sorted_reverse_stable:
  "filter (\<lambda>x. key x = k) (sorted_reverse key xs) = filter (\<lambda>x. key x = k) xs"
proof -
  have "filter (\<lambda>x. key x = k) (sort_key key (rev xs)) = filter (\<lambda>x. key x = k) (rev xs)"
    by (rule sort_key_stable)
  then show ?thesis by (simp add: sorted_reverse_def rev_filter [symmetric])
qed

lemma mset_sorted_reverse: "mset (sorted_reverse key xs) = mset xs"
  by (simp add: sorted_reverse_def)

lemma distinct_keys_sorted_reverse:
  "distinct (map fst (sorted_reverse key xs)) = distinct (map fst xs)"
proof -
  have "mset (map fst (sorted_reverse key xs)) = mset (map fst xs)"
    by (simp add: mset_sorted_reverse)
  then show ?thesis by (rule mset_eq_imp_distinct_iff)
qed

section \<open>The two loops over the weight table\<close>

lemma keys_contributions:
  "map fst (contributions ws features) = filter (\<lambda>f. map_of features f \<noteq> None) (map fst ws)"
  by (induction ws features rule: contributions.induct) (auto split: option.splits)

lemma explanation_loop_contributions:
  "distinct (map fst ws) \<Longrightarrow> set (map fst ws) \<inter> set (map fst acc) = {} \<Longrightarrow>
   explanation_loop ws features acc = acc @ map (apsnd round4) (contributions ws features)"
proof (induction ws arbitrary: acc)
  case Nil
  then show ?case by simp
next
  case (Cons x rest)
  obtain feature weight where x: "x = (feature, weight)" by (cases x)
  have d: "distinct (map fst rest)" using Cons.prems by simp
  show ?case
  proof (cases "map_of features feature")
    case None
    have "set (map fst rest) \<inter> set (map fst acc) = {}" using Cons.prems by auto
    from Cons.IH [OF d this] show ?thesis by (simp add: x None)
  next
    case (Some v)
    from Cons.prems have fresh: "feature \<notin> set (map fst acc)" by (auto simp: x)
    let ?e = "setitem feature (round4 (weight * normalized v)) acc"
    have e: "?e = acc @ [(feature, round4 (weight * normalized v))]"
      by (rule setitem_fresh [OF fresh])
    have "set (map fst rest) \<inter> set (map fst ?e) = {}"
      using Cons.prems by (auto simp: e x)
    from Cons.IH [OF d this] show ?thesis
      by (simp add: x Some e)
  qed
qed

lemma distinct_demo_weights: "distinct (map fst (weights create_demo_model))"
  by (simp add: create_demo_model_def)

section \<open>Normalization\<close>

text \<open>
  C2, as the claim states it, fails: the test is \<^verbatim>\<open>features[feature] > 1\<close> on the
  signed value, not on its magnitude. The value \<open>-5\<close> has magnitude above 1 and is
  passed through undivided.
\<close>

theorem normalized_magnitude_counterexample:
  "1 < \<bar>- 5 :: real\<bar> \<and> normalized (- 5) = - 5 \<and> normalized (- 5) \<noteq> - 5 / 100"
  by (simp add: normalized_def)

text \<open>
  C2, amended. A raw value is divided by 100 exactly when the value itself is greater
  than 1; every value that is at most 1, negative values of any magnitude included,
  is passed through unchanged. The value 1 is passed through.
\<close>

theorem normalized_signed:
  "(1 < v \<longrightarrow> normalized v = v / 100) \<and> (v \<le> 1 \<longrightarrow> normalized v = v)
   \<and> normalized 1 = 1"
  by (simp add: normalized_def)

theorem normalized_signed_witness:
  "normalized 35 = 35 / 100 \<and> normalized 0.8 = 0.8 \<and> normalized (- 5) = - 5"
  using normalized_signed [of 35] normalized_signed [of "0.8"] normalized_signed [of "- 5"]
  by simp

section \<open>Decision policy\<close>

text \<open>
  C5. For every score, the decision is \<^verbatim>\<open>approved\<close> exactly when the score is at
  least 0.5, and the confidence is \<open>min (|score - 0.5| / 0.5) 1\<close>: 0 at score 0.5, and
  1 at score 0 and at score 1.
\<close>

theorem decide_policy:
  "decide s = (if 0.5 \<le> s then ''approved'' else ''denied'', min (\<bar>s - 0.5\<bar> / 0.5) 1)
   \<and> (fst (decide s) = ''approved'') = (0.5 \<le> s)
   \<and> snd (decide 0.5) = 0 \<and> snd (decide 0) = 1 \<and> snd (decide 1) = 1"
  by (simp add: decide_def THRESHOLD_def Let_def)

section \<open>Oversight gate\<close>

text \<open>
  C6. The rules of \<^verbatim>\<open>requires_review\<close> are tried in order and the first match
  wins: a score in \<open>[0.4, 0.6]\<close> gives the borderline reason whatever the confidence;
  outside that band a confidence below 0.3 gives the low-confidence reason; otherwise
  no review is required and the reason is empty.
\<close>

theorem requires_review_priority:
  "(0.4 \<le> score p \<and> score p \<le> 0.6 \<longrightarrow>
      requires_review p = (True, ''Borderline score requires human review''))
   \<and> (\<not> (0.4 \<le> score p \<and> score p \<le> 0.6) \<and> confidence p < 0.3 \<longrightarrow>
      requires_review p = (True, ''Low confidence prediction''))
   \<and> (\<not> (0.4 \<le> score p \<and> score p \<le> 0.6) \<and> \<not> confidence p < 0.3 \<longrightarrow>
      requires_review p = (False, ''''))"
  by (simp add: requires_review_def REVIEW_THRESHOLD_LOW_def REVIEW_THRESHOLD_HIGH_def)

theorem requires_review_priority_witness:
  "requires_review (prediction_at 0.4 0.2) = (True, ''Borderline score requires human review'')
   \<and> requires_review (prediction_at 0.6 0.2) = (True, ''Borderline score requires human review'')
   \<and> requires_review (prediction_at 0.7 0.2) = (True, ''Low confidence prediction'')
   \<and> requires_review (prediction_at 0.7885 0.577) = (False, '''')"
  using requires_review_priority [of "prediction_at 0.4 0.2"]
    requires_review_priority [of "prediction_at 0.6 0.2"]
    requires_review_priority [of "prediction_at 0.7 0.2"]
    requires_review_priority [of "prediction_at 0.7885 0.577"]
  by (simp add: prediction_at_def)

section \<open>Validation\<close>

lemma validate_features_complete:
  "set FEATURES \<subseteq> set (map fst features) \<Longrightarrow> validate_features features = Inr ()"
  by (simp add: validate_features_def Let_def)

lemma validate_features_missing:
  "set FEATURES - set (map fst features) \<noteq> {} \<Longrightarrow>
   validate_features features = Inl (ValueError (set FEATURES - set (map fst features)))"
  by (simp add: validate_features_def Let_def)

text \<open>
  C4. When one or more of the 8 required names is missing, \<^verbatim>\<open>predict\<close> fails with
  the \<^verbatim>\<open>ValueError\<close> of \<^verbatim>\<open>_validate_features\<close>, which carries the whole set of
  missing names; no prediction is produced and, in the object store, nothing is
  allocated or written. When all 8 names are present, extra keys or not, validation
  passes and \<^verbatim>\<open>predict\<close> returns a prediction.
\<close>

theorem validation_fails_closed:
  "(set FEATURES - set (map fst features) \<noteq> {} \<longrightarrow>
      validate_features features = Inl (ValueError (set FEATURES - set (map fst features)))
      \<and> predict m now features = Inl (ValueError (set FEATURES - set (map fst features))))
   \<and> (set FEATURES \<subseteq> set (map fst features) \<longrightarrow>
      validate_features features = Inr () \<and> (\<exists>p. predict m now features = Inr p))
   \<and> (fr < length h \<and> set FEATURES - set (map fst (h ! fr)) \<noteq> {} \<longrightarrow>
      predict_h m now fr h
        = (Inl (ValueError (set FEATURES - set (map fst (h ! fr)))), h))"
  by (simp add: predict_def predict_h_def validate_features_complete
      validate_features_missing Let_def split_beta)

theorem validation_fails_closed_witness:
  "predict create_demo_model ''2024-01-01T00:00:00'' (drop 2 sample_features)
     = Inl (ValueError {''debt_to_income'', ''credit_utilization''})
   \<and> validate_features (sample_features @ [(''postal_code'', 7)]) = Inr ()
   \<and> predict_h create_demo_model ''2024-01-01T00:00:00'' 0 [drop 2 sample_features]
     = (Inl (ValueError {''debt_to_income'', ''credit_utilization''}),
        [drop 2 sample_features])"
proof -
  have a: "set FEATURES - set (map fst (drop 2 sample_features))
      = {''debt_to_income'', ''credit_utilization''}"
    by (auto simp: FEATURES_def sample_features_def)
  have b: "set FEATURES \<subseteq> set (map fst (sample_features @ [(''postal_code'', 7)]))"
    by (simp add: FEATURES_def sample_features_def)
  have a': "set FEATURES - set (map fst (drop 2 sample_features)) \<noteq> {}"
    unfolding a by simp
  from validation_fails_closed
    [of "drop 2 sample_features" create_demo_model "''2024-01-01T00:00:00''"] a'
  have "predict create_demo_model ''2024-01-01T00:00:00'' (drop 2 sample_features)
      = Inl (ValueError (set FEATURES - set (map fst (drop 2 sample_features))))"
    by blast
  then have p: "predict create_demo_model ''2024-01-01T00:00:00'' (drop 2 sample_features)
      = Inl (ValueError {''debt_to_income'', ''credit_utilization''})"
    unfolding a .
  from validation_fails_closed [of "sample_features @ [(''postal_code'', 7)]"] b
  have v: "validate_features (sample_features @ [(''postal_code'', 7)]) = Inr ()"
    by blast
  have c: "0 < length [drop 2 sample_features]
      \<and> set FEATURES - set (map fst ([drop 2 sample_features] ! 0)) \<noteq> {}"
    using a' by simp
  from validation_fails_closed
    [of _ create_demo_model "''2024-01-01T00:00:00''" 0 "[drop 2 sample_features]"] c
  have "predict_h create_demo_model ''2024-01-01T00:00:00'' 0 [drop 2 sample_features]
      = (Inl (ValueError (set FEATURES - set (map fst ([drop 2 sample_features] ! 0)))),
         [drop 2 sample_features])"
    by blast
  then have q: "predict_h create_demo_model ''2024-01-01T00:00:00'' 0 [drop 2 sample_features]
      = (Inl (ValueError {''debt_to_income'', ''credit_utilization''}),
         [drop 2 sample_features])"
    using a by simp
  from p v q show ?thesis by blast
qed

section \<open>Order of the explanation\<close>

lemma distinct_keys_contributions:
  "distinct (map fst ws) \<Longrightarrow> distinct (map fst (contributions ws features))"
  by (simp add: keys_contributions)

lemma keys_apsnd: "map fst (map (apsnd f) xs) = map fst xs"
  by (induction xs) auto

lemma generate_explanation_sorted:
  assumes "distinct (map fst (weights m))"
  shows "generate_explanation m features =
    sorted_reverse (\<lambda>x. \<bar>snd x\<bar>) (map (apsnd round4) (contributions (weights m) features))"
proof -
  let ?c = "map (apsnd round4) (contributions (weights m) features)"
  have e: "explanation_loop (weights m) features [] = ?c"
    using explanation_loop_contributions [OF assms, of "[]" features] by simp
  have "distinct (map fst ?c)"
    using distinct_keys_contributions [OF assms, of features] by (simp add: comp_def)
  then have "distinct (map fst (sorted_reverse (\<lambda>x. \<bar>snd x\<bar>) ?c))"
    by (simp only: distinct_keys_sorted_reverse)
  then show ?thesis
    by (simp add: generate_explanation_def e dict_of_distinct)
qed

text \<open>
  C7. When the weight table is a dict (distinct keys), the explanation is in descending
  order of absolute contribution: every entry is at least as large in magnitude as
  every later one, and in particular as the next one. Entries of equal absolute
  contribution keep the order of the weight table: their names form a subsequence of
  the names of the weight table.
\<close>

theorem explanation_sorted_stable:
  "distinct (map fst (weights m)) \<longrightarrow>
     sorted_wrt (\<lambda>a b. \<bar>snd b\<bar> \<le> \<bar>snd a\<bar>) (generate_explanation m features)
     \<and> (\<forall>i. Suc i < length (generate_explanation m features) \<longrightarrow>
            \<bar>snd (generate_explanation m features ! Suc i)\<bar>
              \<le> \<bar>snd (generate_explanation m features ! i)\<bar>)
     \<and> (\<forall>k. subseq (map fst (filter (\<lambda>e. \<bar>snd e\<bar> = k) (generate_explanation m features)))
                 (map fst (weights m)))"
proof
  assume d: "distinct (map fst (weights m))"
  let ?c = "map (apsnd round4) (contributions (weights m) features)"
  let ?out = "generate_explanation m features"
  have out: "?out = sorted_reverse (\<lambda>x. \<bar>snd x\<bar>) ?c"
    by (rule generate_explanation_sorted [OF d])
  have s: "sorted_wrt (\<lambda>a b. \<bar>snd b\<bar> \<le> \<bar>snd a\<bar>) ?out"
    using sorted_reverse_descending [of "\<lambda>x. \<bar>snd x\<bar>" ?c]
    by (simp add: out sorted_wrt_map)
  have c: "\<forall>i. Suc i < length ?out \<longrightarrow> \<bar>snd (?out ! Suc i)\<bar> \<le> \<bar>snd (?out ! i)\<bar>"
    using s by (simp add: sorted_wrt_iff_nth_less)
  have t: "subseq (map fst (filter (\<lambda>e. \<bar>snd e\<bar> = k) ?out)) (map fst (weights m))" for k
  proof -
    have a: "filter (\<lambda>e. \<bar>snd e\<bar> = k) ?out = filter (\<lambda>e. \<bar>snd e\<bar> = k) ?c"
      unfolding out by (rule sorted_reverse_stable)
    have b: "subseq (map fst (filter (\<lambda>e. \<bar>snd e\<bar> = k) ?c)) (map fst ?c)"
      by (rule subseq_map [OF subseq_filter_left])
    have "subseq (filter (\<lambda>f. map_of features f \<noteq> None) (map fst (weights m)))
        (map fst (weights m))"
      by (rule subseq_filter_left)
    then have c: "subseq (map fst ?c) (map fst (weights m))"
      by (simp only: keys_apsnd keys_contributions)
    show ?thesis
      unfolding a by (rule subseq_order.trans [OF b c])
  qed
  from s c t show "sorted_wrt (\<lambda>a b. \<bar>snd b\<bar> \<le> \<bar>snd a\<bar>) ?out
     \<and> (\<forall>i. Suc i < length ?out \<longrightarrow> \<bar>snd (?out ! Suc i)\<bar> \<le> \<bar>snd (?out ! i)\<bar>)
     \<and> (\<forall>k. subseq (map fst (filter (\<lambda>e. \<bar>snd e\<bar> = k) ?out)) (map fst (weights m)))"
    by blast
qed

lemma contributions_tied:
  "map (apsnd round4) (contributions (weights create_demo_model) tied_features) =
     [(''debt_to_income'', 0), (''credit_utilization'', 0),
      (''payment_history_score'', 0), (''account_age_months'', 0),
      (''inquiry_count_6mo'', 0), (''income_stability'', 0.1),
      (''employment_length'', 0.1), (''existing_accounts'', 0.001)]"
  by (simp add: create_demo_model_def tied_features_def
      normalized_def round4_def round_half_even_def Let_def)

lemma sorted_tied:
  "sorted_reverse (\<lambda>x. \<bar>snd x\<bar>)
     [(''debt_to_income'', 0::real), (''credit_utilization'', 0),
      (''payment_history_score'', 0), (''account_age_months'', 0),
      (''inquiry_count_6mo'', 0), (''income_stability'', 0.1),
      (''employment_length'', 0.1), (''existing_accounts'', 0.001)] =
     [(''income_stability'', 0.1), (''employment_length'', 0.1),
      (''existing_accounts'', 0.001), (''debt_to_income'', 0),
      (''credit_utilization'', 0), (''payment_history_score'', 0),
      (''account_age_months'', 0), (''inquiry_count_6mo'', 0)]"
  by (simp add: sorted_reverse_def)

lemma generate_explanation_tied:
  "generate_explanation create_demo_model tied_features =
     [(''income_stability'', 0.1), (''employment_length'', 0.1),
      (''existing_accounts'', 0.001), (''debt_to_income'', 0),
      (''credit_utilization'', 0), (''payment_history_score'', 0),
      (''account_age_months'', 0), (''inquiry_count_6mo'', 0)]"
  by (simp only: generate_explanation_sorted [OF distinct_demo_weights]
      contributions_tied sorted_tied)

theorem explanation_sorted_stable_witness:
  "sorted_wrt (\<lambda>a b. \<bar>snd b\<bar> \<le> \<bar>snd a\<bar>) (generate_explanation create_demo_model tied_features)
   \<and> subseq (map fst (filter (\<lambda>e. \<bar>snd e\<bar> = 0.1)
                (generate_explanation create_demo_model tied_features)))
        (map fst (weights create_demo_model))
   \<and> map fst (filter (\<lambda>e. \<bar>snd e\<bar> = 0.1)
              (generate_explanation create_demo_model tied_features))
        = [''income_stability'', ''employment_length'']"
proof -
  have "map fst (filter (\<lambda>e. \<bar>snd e\<bar> = 0.1)
              (generate_explanation create_demo_model tied_features))
        = [''income_stability'', ''employment_length'']"
    by (simp add: generate_explanation_tied)
  with explanation_sorted_stable [of create_demo_model tied_features] distinct_demo_weights
  show ?thesis by blast
qed

section \<open>The object store\<close>

lemma explanation_loop_h_frame:
  "fr < length h \<Longrightarrow> er < length h \<Longrightarrow> er \<noteq> fr \<Longrightarrow>
   explanation_loop_h ws fr er h = h[er := explanation_loop ws (h ! fr) (h ! er)]"
proof (induction ws arbitrary: h)
  case Nil
  then show ?case by simp
next
  case (Cons x rest)
  obtain feature weight where x: "x = (feature, weight)" by (cases x)
  show ?case
  proof (cases "map_of (h ! fr) feature")
    case None
    with Cons show ?thesis by (simp add: x)
  next
    case (Some v)
    let ?h = "h[er := setitem feature (round4 (weight * normalized v)) (h ! er)]"
    have "explanation_loop_h rest fr er ?h
        = ?h[er := explanation_loop rest (?h ! fr) (?h ! er)]"
      using Cons.prems by (intro Cons.IH) simp_all
    then show ?thesis
      using Cons.prems by (simp add: x Some)
  qed
qed

lemma generate_explanation_h_eq:
  assumes "fr < length h"
  shows "generate_explanation_h m fr h =
    (Suc (length h),
     h @ [explanation_loop (weights m) (h ! fr) [], generate_explanation m (h ! fr)])"
proof -
  let ?h1 = "h @ [[]]"
  have "explanation_loop_h (weights m) fr (length h) ?h1
      = ?h1[length h := explanation_loop (weights m) (?h1 ! fr) (?h1 ! length h)]"
    using assms by (intro explanation_loop_h_frame) simp_all
  then have "explanation_loop_h (weights m) fr (length h) ?h1
      = h @ [explanation_loop (weights m) (h ! fr) []]"
    using assms by (simp add: nth_append)
  then show ?thesis
    by (simp add: generate_explanation_h_def new_dict_def generate_explanation_def Let_def
        nth_append)
qed

lemma predict_h_eq:
  assumes "fr < length h"
  shows "predict_h m now fr h =
    (predict m now (h ! fr),
     case validate_features (h ! fr) of
       Inl e \<Rightarrow> h
     | Inr u \<Rightarrow> h @ [explanation_loop (weights m) (h ! fr) [], generate_explanation m (h ! fr)])"
  by (simp add: predict_h_def predict_def generate_explanation_h_eq [OF assms] Let_def
      split_beta nth_append split: sum.splits)

lemma predict_h_frame:
  assumes "fr < length h"
  shows "take (length h) (snd (predict_h m now fr h)) = h"
  by (simp add: predict_h_eq [OF assms] split: sum.splits)

lemma predict_h_nth:
  assumes "fr < length h"
  shows "fr < length (snd (predict_h m now fr h)) \<and> snd (predict_h m now fr h) ! fr = h ! fr"
  using assms by (simp add: predict_h_eq [OF assms] nth_append split: sum.splits)

lemma predict_h_fst:
  "fr < length h \<Longrightarrow> fst (predict_h m now fr h) = predict m now (h ! fr)"
  by (simp add: predict_h_eq)

text \<open>
  C9. A call of \<^verbatim>\<open>predict\<close> on an allocated feature dict leaves that dict as it
  was: no entry is added, removed or rewritten. Every dict that existed before the
  call is unchanged; the call only allocates new dicts. Its result is the one
  computed from the contents of the feature dict.
\<close>

theorem features_unchanged:
  "fr < length h \<longrightarrow>
     snd (predict_h m now fr h) ! fr = h ! fr
     \<and> take (length h) (snd (predict_h m now fr h)) = h
     \<and> fst (predict_h m now fr h) = predict m now (h ! fr)"
proof
  assume a: "fr < length h"
  from predict_h_nth [OF a, of m now]
  have n: "snd (predict_h m now fr h) ! fr = h ! fr" by blast
  have t: "take (length h) (snd (predict_h m now fr h)) = h"
    by (rule predict_h_frame [OF a])
  have f: "fst (predict_h m now fr h) = predict m now (h ! fr)"
    by (rule predict_h_fst [OF a])
  from n t f show "snd (predict_h m now fr h) ! fr = h ! fr
     \<and> take (length h) (snd (predict_h m now fr h)) = h
     \<and> fst (predict_h m now fr h) = predict m now (h ! fr)"
    by blast
qed

theorem features_unchanged_witness:
  "snd (predict_h create_demo_model ''2024-01-01T00:00:00'' 1 [tied_features, sample_features]) ! 1
     = sample_features
   \<and> take 2 (snd (predict_h create_demo_model ''2024-01-01T00:00:00'' 1
        [tied_features, sample_features])) = [tied_features, sample_features]
   \<and> length (snd (predict_h create_demo_model ''2024-01-01T00:00:00'' 1
        [tied_features, sample_features])) = 4"
proof -
  let ?H = "[tied_features, sample_features]"
  let ?P = "predict_h create_demo_model ''2024-01-01T00:00:00'' 1 ?H"
  have a: "1 < length ?H" by simp
  have v: "validate_features (?H ! 1) = Inr ()"
    by (simp add: validate_features_def FEATURES_def sample_features_def)
  from features_unchanged [of 1 ?H create_demo_model "''2024-01-01T00:00:00''"] a
  have i: "snd ?P ! 1 = ?H ! 1 \<and> take (length ?H) (snd ?P) = ?H" by blast
  have c1: "snd ?P ! 1 = sample_features" using i by simp
  have e: "length ?H = 2" by simp
  have c2: "take 2 (snd ?P) = ?H" using i unfolding e by blast
  have c3: "length (snd ?P) = 4"
    unfolding predict_h_eq [OF a] v by simp
  from c1 c2 c3 show ?thesis by blast
qed

text \<open>
  C8. The score depends on the contents of the feature dict and on the weight table
  only: two calls on equal feature dicts return equal scores, whatever else the
  store holds, wherever the dicts lie in it and whatever the clock reads; and a second
  call on the same dict, in the store the first call left, returns the score of the
  first.
\<close>

theorem scoring_deterministic:
  "(fr < length h \<and> fr' < length h' \<and> h ! fr = h' ! fr' \<longrightarrow>
      calculate_score m (h ! fr) = calculate_score m (h' ! fr')
      \<and> map_sum id score (fst (predict_h m now fr h))
          = map_sum id score (fst (predict_h m now' fr' h')))
   \<and> (fr < length h \<longrightarrow>
      map_sum id score (fst (predict_h m now' fr (snd (predict_h m now fr h))))
        = map_sum id score (fst (predict_h m now fr h)))"
proof -
  have p: "map_sum id score (predict m t f) = map_sum id score (predict m t' f)" for t t' f
    by (simp add: predict_def Let_def split_beta split: sum.splits)
  have one: "map_sum id score (fst (predict_h m now fr h))
          = map_sum id score (fst (predict_h m now' fr' h'))"
    if a: "fr < length h" and b: "fr' < length h'" and c: "h ! fr = h' ! fr'"
    unfolding predict_h_fst [OF a] predict_h_fst [OF b] c by (rule p)
  have two: "map_sum id score (fst (predict_h m now' fr (snd (predict_h m now fr h))))
        = map_sum id score (fst (predict_h m now fr h))"
    if a: "fr < length h"
  proof -
    let ?h1 = "snd (predict_h m now fr h)"
    from predict_h_nth [OF a, of m now]
    have l: "fr < length ?h1" and n: "?h1 ! fr = h ! fr" by simp_all
    have "fst (predict_h m now' fr ?h1) = predict m now' (h ! fr)"
      using predict_h_fst [OF l, of m now'] by (simp only: n)
    moreover have "fst (predict_h m now fr h) = predict m now (h ! fr)"
      by (rule predict_h_fst [OF a])
    ultimately show ?thesis using p [of now' "h ! fr" now] by (simp only:)
  qed
  from one two show ?thesis by simp
qed

theorem scoring_deterministic_witness:
  "map_sum id score (fst (predict_h create_demo_model ''2024-01-01T00:00:00'' 0 [sample_features]))
     = map_sum id score
         (fst (predict_h create_demo_model ''2024-06-30T12:00:00'' 1
            [tied_features, sample_features]))
   \<and> map_sum id score
       (fst (predict_h create_demo_model ''2024-06-30T12:00:00'' 0
          (snd (predict_h create_demo_model ''2024-01-01T00:00:00'' 0 [sample_features]))))
     = map_sum id score
         (fst (predict_h create_demo_model ''2024-01-01T00:00:00'' 0 [sample_features]))"
proof -
  have a: "0 < length [sample_features] \<and> 1 < length [tied_features, sample_features]
      \<and> [sample_features] ! 0 = [tied_features, sample_features] ! 1"
    by simp
  from scoring_deterministic [of 0 "[sample_features]" 1 "[tied_features, sample_features]"
      create_demo_model "''2024-01-01T00:00:00''" "''2024-06-30T12:00:00''"] a
  show ?thesis by blast
qed

section \<open>Rounding to a double\<close>

lemma ulp_pos: "0 < ulp x"
  by (simp add: ulp_def)

lemma fl_0: "fl 0 = 0"
  by (simp add: fl_def round_half_even_def)

lemma round_half_even_bounds: "\<lfloor>x\<rfloor> \<le> round_half_even x \<and> round_half_even x \<le> \<lceil>x\<rceil>"
proof -
  have "\<lfloor>x\<rfloor> + 1 \<le> \<lceil>x\<rceil>" if "1 / 2 \<le> x - of_int \<lfloor>x\<rfloor>"
  proof -
    from that have "of_int \<lfloor>x\<rfloor> < x" by simp
    then have "\<lfloor>x\<rfloor> < \<lceil>x\<rceil>" by (simp add: floor_less_iff less_ceiling_iff)
    then show ?thesis by simp
  qed
  moreover have "\<lfloor>x\<rfloor> \<le> \<lceil>x\<rceil>" by (rule floor_le_ceiling)
  ultimately show ?thesis
    by (auto simp: round_half_even_def Let_def not_less)
qed

lemma round_half_even_le: "x \<le> of_int n \<Longrightarrow> round_half_even x \<le> n"
  using round_half_even_bounds [of x] by (simp add: ceiling_le_iff order_trans [of _ "\<lceil>x\<rceil>"])

lemma round_half_even_ge: "of_int n \<le> x \<Longrightarrow> n \<le> round_half_even x"
  using round_half_even_bounds [of x] by (simp add: le_floor_iff order_trans [of _ "\<lfloor>x\<rfloor>"])

lemma round_half_even_error: "\<bar>of_int (round_half_even x) - x\<bar> \<le> 1 / 2"
  by (auto simp: round_half_even_def Let_def abs_if not_less) linarith+

lemma round_half_even_minus: "round_half_even (- x) = - round_half_even x"
proof (cases "x \<in> \<int>")
  case True
  then obtain n where "x = of_int n" by (auto elim: Ints_cases)
  then show ?thesis by (simp add: round_half_even_def flip: of_int_minus)
next
  case False
  then have ne: "x \<noteq> of_int \<lfloor>x\<rfloor>" by (metis Ints_of_int)
  then have f: "\<lfloor>- x\<rfloor> = - \<lfloor>x\<rfloor> - 1"
    by (simp add: floor_minus ceiling_altdef)
  show ?thesis
    unfolding round_half_even_def Let_def f by (auto simp: not_less)
qed

lemma expo_eqI:
  assumes "- 1022 \<le> e" "2 powi e \<le> \<bar>x\<bar>" "\<bar>x\<bar> < 2 powi (e + 1)"
  shows "expo x = e"
proof -
  have pos: "0 < \<bar>x\<bar>" using assms(2) by (smt (verit) zero_less_power_int)
  have "2 powr (of_int e) \<le> \<bar>x\<bar> \<and> \<bar>x\<bar> < 2 powr (of_int e + 1)"
    using assms powr_real_of_int' [of 2 e] powr_real_of_int' [of 2 "e + 1"] by simp
  then have "\<lfloor>log 2 \<bar>x\<bar>\<rfloor> = e"
    using floor_log_eq_powr_iff [of "\<bar>x\<bar>" 2 e] pos by simp
  then show ?thesis using assms(1) by (simp add: expo_def)
qed

lemma expo_le:
  assumes "x \<noteq> 0" "\<bar>x\<bar> < 2 powi (k + 1)" "- 1022 \<le> k"
  shows "expo x \<le> k"
proof -
  have "\<bar>x\<bar> < 2 powr (of_int (k + 1))"
    using assms(2) powr_real_of_int' [of 2 "k + 1"] by simp
  then have "log 2 \<bar>x\<bar> < of_int (k + 1)"
    using assms(1) by (simp add: log_less_iff)
  then have "\<lfloor>log 2 \<bar>x\<bar>\<rfloor> < k + 1" unfolding floor_less_iff .
  then show ?thesis using assms(3) by (simp add: expo_def)
qed

lemma fl_eval:
  assumes "- 1022 \<le> e" "2 powi e \<le> \<bar>x\<bar>" "\<bar>x\<bar> < 2 powi (e + 1)"
  shows "fl x = of_int (round_half_even (x / 2 powi (e - 52))) * 2 powi (e - 52)"
  by (simp add: fl_def ulp_def expo_eqI [OF assms])

lemma fl_minus: "fl (- x) = - fl x"
  by (simp add: fl_def ulp_def expo_def round_half_even_minus)

lemma fl_nonneg: "0 \<le> x \<Longrightarrow> 0 \<le> fl x"
proof -
  assume "0 \<le> x"
  then have "of_int 0 \<le> x / ulp x" using ulp_pos [of x] by simp
  then have "0 \<le> round_half_even (x / ulp x)" by (rule round_half_even_ge)
  then show ?thesis using ulp_pos [of x] by (simp add: fl_def)
qed

lemma fl_le_grid:
  assumes "0 \<le> x" "x \<le> of_int n * 2 powi j" "x < 2 powi (j + 53)" "- 1074 \<le> j"
  shows "fl x \<le> of_int n * 2 powi j"
proof (cases "x = 0")
  case True
  with assms(1,2) show ?thesis by (simp add: fl_0)
next
  case False
  have e: "expo x \<le> j + 52"
    using expo_le [of x "j + 52"] False assms by (simp add: add.commute)
  define i where "i = nat (j + 52 - expo x)"
  have j: "j = expo x - 52 + int i" using e by (simp add: i_def)
  have u: "(2::real) powi j = 2 ^ i * ulp x"
    unfolding ulp_def by (subst j) (simp add: power_int_add)
  have "x / ulp x \<le> of_int (n * 2 ^ i)"
    using assms(2) ulp_pos [of x] by (simp add: u pos_divide_le_eq mult.assoc)
  then have "round_half_even (x / ulp x) \<le> n * 2 ^ i" by (rule round_half_even_le)
  then have "of_int (round_half_even (x / ulp x)) \<le> (of_int (n * 2 ^ i) :: real)"
    by (simp only: of_int_le_iff)
  then have "of_int (round_half_even (x / ulp x)) * ulp x \<le> of_int (n * 2 ^ i) * ulp x"
    using ulp_pos [of x] by (simp add: mult_right_mono)
  then show ?thesis by (simp add: fl_def u mult.assoc)
qed

lemma fl_le_1: "0 \<le> x \<Longrightarrow> x \<le> 1 \<Longrightarrow> fl x \<le> 1"
  using fl_le_grid [of x 1 0] by simp

lemma fl_le_10000: "0 \<le> x \<Longrightarrow> x \<le> 10000 \<Longrightarrow> fl x \<le> 10000"
  using fl_le_grid [of x 625 4] by simp

lemma fl_ge_1:
  assumes "1 \<le> x"
  shows "1 \<le> fl x"
proof -
  define e where "e = \<lfloor>log 2 \<bar>x\<bar>\<rfloor>"
  have x: "\<bar>x\<bar> = x" using assms by simp
  have "0 \<le> log 2 x" using assms by simp
  then have e0: "0 \<le> e" by (simp add: e_def x)
  then have ex: "expo x = e" by (simp add: expo_def e_def)
  have "of_int e \<le> log 2 x" by (simp add: e_def x)
  then have "2 powr (of_int e) \<le> x" using assms by (simp add: le_log_iff)
  then have lo: "2 powi e \<le> x" using powr_real_of_int' [of 2 e] by simp
  have u: "(2::real) powi e = 2 ^ 52 * ulp x"
  proof -
    have "e = (e - 52) + 52" by simp
    then have "(2::real) powi e = 2 powi (e - 52) * 2 powi 52"
      by (metis power_int_add zero_neq_numeral)
    then show ?thesis by (simp add: ulp_def ex)
  qed
  have "of_int (2 ^ 52) \<le> x / ulp x"
    using lo ulp_pos [of x] by (simp add: u pos_le_divide_eq)
  then have "2 ^ 52 \<le> round_half_even (x / ulp x)" by (rule round_half_even_ge)
  then have "(of_int (2 ^ 52) :: real) \<le> of_int (round_half_even (x / ulp x))"
    by (simp only: of_int_le_iff)
  then have "of_int (2 ^ 52) * ulp x \<le> of_int (round_half_even (x / ulp x)) * ulp x"
    using ulp_pos [of x] by (simp add: mult_right_mono)
  then have "2 powi e \<le> fl x" by (simp add: fl_def u)
  moreover have "(1::real) \<le> 2 powi e" using e0 by (simp add: one_le_power_int)
  ultimately show ?thesis by simp
qed

lemma fl_error: "\<bar>fl x - x\<bar> \<le> ulp x / 2"
proof -
  have "fl x - x = (of_int (round_half_even (x / ulp x)) - x / ulp x) * ulp x"
    using ulp_pos [of x] by (simp add: fl_def algebra_simps)
  then have "\<bar>fl x - x\<bar> = \<bar>of_int (round_half_even (x / ulp x)) - x / ulp x\<bar> * ulp x"
    using ulp_pos [of x] by (simp add: abs_mult)
  also have "\<dots> \<le> 1 / 2 * ulp x"
    using round_half_even_error [of "x / ulp x"] ulp_pos [of x]
    by (intro mult_right_mono) simp_all
  finally show ?thesis by simp
qed

lemma fl_error_bound:
  assumes "\<bar>x\<bar> < 2 powi (k + 1)" "- 1022 \<le> k"
  shows "\<bar>fl x - x\<bar> \<le> 2 powi (k - 52) / 2"
proof (cases "x = 0")
  case True
  then show ?thesis by (simp add: fl_0)
next
  case False
  have "expo x \<le> k" by (rule expo_le [OF False assms])
  then have "ulp x \<le> 2 powi (k - 52)"
    unfolding ulp_def by (intro power_int_increasing) simp_all
  with fl_error [of x] show ?thesis by simp
qed

lemma fl_tiny:
  assumes "0 \<le> x" "x < 2 powi (- 1075)"
  shows "fl x = 0"
proof (cases "x = 0")
  case True
  then show ?thesis by (simp add: fl_0)
next
  case False
  have "(2::real) powi (- 1075) \<le> 2 powi (- 1022 + 1)"
    by (intro power_int_increasing) simp_all
  then have "\<bar>x\<bar> < 2 powi (- 1022 + 1)" using assms by simp
  from expo_le [OF False this] have "expo x = - 1022" by (simp add: expo_def)
  then have u: "ulp x = 2 powi (- 1074)" by (simp add: ulp_def)
  have "(2::real) powi (- 1075) = 2 powi (- 1074) / 2"
    using power_int_add [of "2::real" "- 1075" 1] by simp
  then have h: "x / ulp x < 1 / 2" using assms(2) by (simp add: u pos_divide_less_eq)
  have "0 \<le> x / ulp x" using assms(1) ulp_pos [of x] by simp
  moreover from h have "x / ulp x < 1" by linarith
  ultimately have f: "\<lfloor>x / ulp x\<rfloor> = 0" by (simp only: floor_eq_iff) simp
  have "round_half_even (x / ulp x) = 0"
    unfolding round_half_even_def Let_def f using h by simp
  then show ?thesis by (simp add: fl_def)
qed

lemma exp_ge_pow2: "2 ^ n \<le> exp (real n)"
proof -
  have "(2::real) \<le> exp 1" using exp_ge_add_one_self [of 1] by simp
  then have "(2::real) ^ n \<le> exp 1 ^ n" by (intro power_mono) simp_all
  also have "\<dots> = exp (real n)" using exp_of_nat_mult [of n "1::real"] by simp
  finally show ?thesis .
qed

section \<open>Values of the double operations\<close>

lemma fl_half: "fl (1 / 2) = 1 / 2"
  using fl_eval [of "- 1" "1 / 2"] by (simp add: round_half_even_def)

lemma fl_1: "fl 1 = 1"
  using fl_eval [of 0 1] by (simp add: round_half_even_def)

lemma fl_2: "fl 2 = 2"
  using fl_eval [of 1 2] by (simp add: round_half_even_def)

lemma fl_tenth: "fl (1 / 10) = 3602879701896397 / 36028797018963968"
  using fl_eval [of "- 4" "1 / 10"] by (simp add: round_half_even_def)

lemma fl_three_tenths: "fl (3 / 10) = 5404319552844595 / 18014398509481984"
  using fl_eval [of "- 2" "3 / 10"] by (simp add: round_half_even_def)

lemma fl_seven_twentieths: "fl (7 / 20) = 3152519739159347 / 9007199254740992"
  using fl_eval [of "- 2" "7 / 20"] by (simp add: round_half_even_def)

lemma fl_e18: "fl 1000000000000000000 = 1000000000000000000"
  using fl_eval [of 59 1000000000000000000] by (simp add: round_half_even_def)

lemma fl_tenth_e18:
  "fl (3602879701896397 / 36028797018963968 * 1000000000000000000) = 100000000000000000"
  using fl_eval [of 56 "3602879701896397 / 36028797018963968 * 1000000000000000000"]
  by (simp add: round_half_even_def)

lemma fl_e17: "fl 100000000000000000 = 100000000000000000"
  using fl_eval [of 56 100000000000000000] by (simp add: round_half_even_def)

lemma fl_half_minus_e17: "fl (1 / 2 - 100000000000000000) = - 100000000000000000"
  using fl_eval [of 56 "1 / 2 - 100000000000000000"] by (simp add: round_half_even_def)

lemma fl_minus_e17: "fl (- 100000000000000000) = - 100000000000000000"
  by (simp add: fl_minus fl_e17)

lemma fl_30000_5: "fl (60001 / 2) = 60001 / 2"
  using fl_eval [of 14 "60001 / 2"] by (simp add: round_half_even_def)

lemma fl_34999_5: "fl (69999 / 2) = 69999 / 2"
  using fl_eval [of 15 "69999 / 2"] by (simp add: round_half_even_def)

lemma fl_60001: "fl 60001 = 60001"
  using fl_eval [of 15 60001] by (simp add: round_half_even_def)

lemma fl_69999: "fl 69999 = 69999"
  using fl_eval [of 16 69999] by (simp add: round_half_even_def)

lemma exp_rn_nonneg: "exp_rn z = Some e \<Longrightarrow> 0 \<le> e"
  by (auto simp: exp_rn_def fl_nonneg split: if_splits)

lemma exp_rn_0: "exp_rn 0 = Some 1"
proof -
  have "exp (0::real) < 2 ^ 1024 - 2 ^ 970" by simp
  then show ?thesis using fl_eval [of 0 1] by (simp add: exp_rn_def round_half_even_def)
qed

lemma exp_rn_overflow: "exp_rn 69999 = None"
proof -
  have "(2::real) ^ 1024 \<le> exp (real 1024)" by (rule exp_ge_pow2)
  also have "\<dots> \<le> exp 69999" by simp
  finally have "2 ^ 1024 - 2 ^ 970 \<le> exp (69999 :: real)" by simp
  then show ?thesis by (simp add: exp_rn_def)
qed

lemma exp_underflow: "fl (exp (- 60001)) = 0"
proof -
  have "(2::real) ^ 1075 \<le> exp (real 1075)" by (rule exp_ge_pow2)
  also have "\<dots> < exp 60001" by simp
  finally have "inverse (exp (60001::real)) < inverse (2 ^ 1075)"
    by (intro less_imp_inverse_less) simp_all
  then have "exp (- 60001 :: real) < 2 powi (- 1075)"
    by (simp add: exp_minus power_int_minus)
  then show ?thesis by (intro fl_tiny) simp_all
qed

lemma exp_rn_underflow: "exp_rn (- 60001) = Some 0"
proof -
  have a: "exp (- 60001 :: real) \<le> 1" by simp
  have b: "(1::real) < 2 ^ 1024 - 2 ^ 970" by simp
  from a b have "\<not> 2 ^ 1024 - 2 ^ 970 \<le> exp (- 60001 :: real)" by linarith
  then show ?thesis by (simp add: exp_rn_def exp_underflow)
qed

lemma fmul_0: "fmul w 0 = 0"
  by (simp add: fmul_def fl_0)

lemma fadd_0: "fadd a 0 = fl a"
  by (simp add: fadd_def)

lemma fadd_0_left: "fadd 0 a = fl a"
  by (simp add: fadd_def)

lemma normalized_d_0: "normalized_d 0 = 0"
  by (simp add: normalized_d_def)

lemma normalized_d_e20: "normalized_d 100000000000000000000 = 1000000000000000000"
  using fl_e18 by (simp add: normalized_d_def fdiv_def)

lemma normalized_d_e7: "normalized_d 10000000 = 100000"
  using fl_eval [of 16 100000] by (simp add: normalized_d_def fdiv_def round_half_even_def)

lemma fmul_tenth_e18:
  "fmul (3602879701896397 / 36028797018963968) 1000000000000000000 = 100000000000000000"
  unfolding fmul_def by (rule fl_tenth_e18)

lemma fmul_minus_tenth_e18:
  "fmul (- (3602879701896397 / 36028797018963968)) 1000000000000000000 = - 100000000000000000"
  using fl_tenth_e18 by (simp add: fmul_def fl_minus flip: minus_mult_left)

lemma fmul_three_tenths_e5:
  "fmul (5404319552844595 / 18014398509481984) 100000 = 30000"
  using fl_eval [of 14 "5404319552844595 / 18014398509481984 * 100000"]
  by (simp add: fmul_def round_half_even_def)

lemma fmul_seven_twentieths_e5:
  "fmul (- (3152519739159347 / 9007199254740992)) 100000 = - 35000"
proof -
  have "fl (3152519739159347 / 9007199254740992 * 100000) = 35000"
    using fl_eval [of 15 "3152519739159347 / 9007199254740992 * 100000"]
    by (simp add: round_half_even_def)
  then show ?thesis by (simp add: fmul_def fl_minus flip: minus_mult_left)
qed

lemma fadd_half_minus_e17: "fadd (1 / 2) (- 100000000000000000) = - 100000000000000000"
  using fl_half_minus_e17 by (simp add: fadd_def)

lemma fadd_cancel: "fadd (- 100000000000000000) 100000000000000000 = 0"
  by (simp add: fadd_def fl_0)

lemma demo_weights_d:
  "weights (f64_model create_demo_model) =
     [(''debt_to_income'', fl (- 0.35)), (''credit_utilization'', fl (- 0.25)),
      (''payment_history_score'', fl 0.30), (''account_age_months'', fl 0.15),
      (''inquiry_count_6mo'', - (3602879701896397 / 36028797018963968)),
      (''income_stability'', fl 0.20),
      (''employment_length'', 3602879701896397 / 36028797018963968),
      (''existing_accounts'', fl 0.05)]"
  using fl_tenth by (simp add: f64_model_def create_demo_model_def fl_minus)

lemma demo_intercept_d: "intercept (f64_model create_demo_model) = 1 / 2"
  using fl_half by (simp add: f64_model_def create_demo_model_def)

lemma distinct_demo_weights_d: "distinct (map fst (weights (f64_model create_demo_model)))"
  by (simp add: f64_model_def create_demo_model_def)

section \<open>The logit in double arithmetic\<close>

lemma score_loop_d_running_sum:
  "score_loop_d ws features s = foldl fadd s (map snd (contributions_d ws features))"
  by (induction ws features s rule: score_loop_d.induct) (auto split: option.splits)

lemma explanation_loop_d_contributions:
  "distinct (map fst ws) \<Longrightarrow> set (map fst ws) \<inter> set (map fst acc) = {} \<Longrightarrow>
   explanation_loop_d ws features acc = acc @ map (apsnd round4_d) (contributions_d ws features)"
proof (induction ws arbitrary: acc)
  case Nil
  then show ?case by simp
next
  case (Cons x rest)
  obtain feature weight where x: "x = (feature, weight)" by (cases x)
  have d: "distinct (map fst rest)" using Cons.prems by simp
  show ?case
  proof (cases "map_of features feature")
    case None
    have "set (map fst rest) \<inter> set (map fst acc) = {}" using Cons.prems by auto
    from Cons.IH [OF d this] show ?thesis by (simp add: x None)
  next
    case (Some v)
    from Cons.prems have fresh: "feature \<notin> set (map fst acc)" by (auto simp: x)
    let ?e = "setitem feature (round4_d (fmul weight (normalized_d v))) acc"
    have e: "?e = acc @ [(feature, round4_d (fmul weight (normalized_d v)))]"
      by (rule setitem_fresh [OF fresh])
    have "set (map fst rest) \<inter> set (map fst ?e) = {}"
      using Cons.prems by (auto simp: e x)
    from Cons.IH [OF d this] show ?thesis
      by (simp add: x Some e)
  qed
qed

lemma contributions_cancelling:
  "map snd (contributions_d (weights (f64_model create_demo_model)) cancelling_features) =
     [0, 0, 0, 0, - 100000000000000000, 0, 100000000000000000, 0]"
  unfolding demo_weights_d
  by (simp add: cancelling_features_def normalized_d_0 normalized_d_e20 fmul_0
      fmul_tenth_e18 fmul_minus_tenth_e18)

lemma linear_sum_cancelling:
  "linear_sum_d (f64_model create_demo_model) cancelling_features = 0"
  unfolding linear_sum_d_def demo_weights_d demo_intercept_d
  by (simp add: cancelling_features_def normalized_d_0 normalized_d_e20 fmul_0
      fmul_tenth_e18 fmul_minus_tenth_e18 fadd_0 fl_half fadd_half_minus_e17
      fl_minus_e17 fadd_cancel fl_0)

text \<open>
  C1, as the claim states it, fails in double arithmetic. With
  \<^verbatim>\<open>inquiry_count_6mo\<close> and \<^verbatim>\<open>employment_length\<close> at \<open>10\<^sup>2\<^sup>0\<close> and the other six
  features at 0, the contributions are \<open>-10\<^sup>1\<^sup>7\<close> and \<open>10\<^sup>1\<^sup>7\<close>. The scoring loop
  adds the first to the intercept 0.5, which is absorbed, and leaves 0; the intercept
  plus the sum of the contributions, added as doubles or exactly, is 0.5.
\<close>

theorem logit_decomposition_counterexample:
  "linear_sum_d (f64_model create_demo_model) cancelling_features = 0
   \<and> fadd (intercept (f64_model create_demo_model))
        (foldl fadd 0
          (map snd (contributions_d (weights (f64_model create_demo_model))
             cancelling_features))) = 1 / 2
   \<and> intercept (f64_model create_demo_model)
        + sum_list (map snd (contributions_d (weights (f64_model create_demo_model))
             cancelling_features)) = 1 / 2"
  unfolding contributions_cancelling linear_sum_cancelling demo_intercept_d
  by (simp add: fadd_0 fadd_0_left fl_0 fl_half fl_minus_e17 fadd_cancel)

text \<open>
  C1, amended. The value the scoring loop hands to the sigmoid is the intercept with
  the contributions of the explanation loop, as computed before rounding to 4 digits,
  added to it one after the other in the order of the weight table, each sum rounded
  to a double. The two loops compute the same contributions: the dict the explanation
  loop builds holds exactly these, each rounded to 4 digits, when the weight table is
  a dict. This holds for every feature dict, complete or not.
\<close>

theorem logit_is_running_sum:
  "linear_sum_d m features
     = foldl fadd (intercept m) (map snd (contributions_d (weights m) features))
   \<and> (distinct (map fst (weights m)) \<longrightarrow>
        explanation_loop_d (weights m) features [] =
          map (apsnd round4_d) (contributions_d (weights m) features))"
  using explanation_loop_d_contributions [of "weights m" "[]" features]
  by (simp add: linear_sum_d_def score_loop_d_running_sum)

theorem logit_is_running_sum_witness:
  "linear_sum_d (f64_model create_demo_model) cancelling_features
     = foldl fadd (1 / 2) [0, 0, 0, 0, - 100000000000000000, 0, 100000000000000000, 0]
   \<and> explanation_loop_d (weights (f64_model create_demo_model)) cancelling_features [] =
        map (apsnd round4_d)
          (contributions_d (weights (f64_model create_demo_model)) cancelling_features)"
  using logit_is_running_sum [of "f64_model create_demo_model" cancelling_features]
    distinct_demo_weights_d
  unfolding contributions_cancelling demo_intercept_d by blast

section \<open>The score in double arithmetic\<close>

lemma calculate_score_d_range:
  assumes "\<forall>z e. npexp z = Some e \<longrightarrow> 0 \<le> e"
  shows "0 \<le> calculate_score_d npexp m features \<and> calculate_score_d npexp m features \<le> 1"
proof (cases "npexp (fmul (- linear_sum_d m features) 2)")
  case None
  then show ?thesis by (simp add: calculate_score_d_def)
next
  case (Some e)
  define y where "y = fadd 1 e"
  have "0 \<le> e" using assms Some by blast
  then have y1: "1 \<le> y" unfolding y_def fadd_def by (intro fl_ge_1) simp
  then have q: "0 \<le> 1 / y \<and> 1 / y \<le> 1" by simp
  then have "0 \<le> fdiv 1 y \<and> fdiv 1 y \<le> 1"
    unfolding fdiv_def by (simp add: fl_nonneg fl_le_1)
  then show ?thesis
    by (simp add: calculate_score_d_def Some y_def)
qed

lemma around4_range: "0 \<le> c \<Longrightarrow> c \<le> 1 \<Longrightarrow> 0 \<le> around4 c \<and> around4 c \<le> 1"
proof -
  assume c: "0 \<le> c" "c \<le> 1"
  define y where "y = fmul c 10000"
  define k where "k = round_half_even y"
  have y: "0 \<le> y \<and> y \<le> 10000"
    unfolding y_def fmul_def using c by (simp add: fl_nonneg fl_le_10000)
  then have k: "0 \<le> k \<and> k \<le> 10000"
    unfolding k_def using round_half_even_ge [of 0 y] round_half_even_le [of y 10000] by simp
  then have "0 \<le> (of_int k / 10000 :: real) \<and> (of_int k / 10000 :: real) \<le> 1" by simp
  then have "0 \<le> fdiv (of_int k) 10000 \<and> fdiv (of_int k) 10000 \<le> 1"
    unfolding fdiv_def by (simp add: fl_nonneg fl_le_1)
  then show ?thesis by (simp add: around4_def k_def y_def)
qed

lemma decide_d_range: "0 \<le> snd (decide_d s) \<and> snd (decide_d s) \<le> 1"
  by (simp add: decide_d_def Let_def THRESHOLD_def fdiv_def fl_nonneg)

lemma around4_error:
  assumes "0 \<le> c" "c \<le> 1"
  shows "\<bar>around4 c - c\<bar> \<le> 51 / 1000000"
proof -
  define y where "y = fmul c 10000"
  define k where "k = round_half_even y"
  define w where "w = (of_int k / 10000 :: real)"
  have "\<bar>c * 10000\<bar> < 2 powi (13 + 1)" using assms by simp
  from fl_error_bound [OF this]
  have e1: "\<bar>y - c * 10000\<bar> \<le> 2 powi (13 - 52) / 2" by (simp add: y_def fmul_def)
  have e2: "\<bar>of_int k - y\<bar> \<le> 1 / 2" unfolding k_def by (rule round_half_even_error)
  have y: "0 \<le> y \<and> y \<le> 10000"
    unfolding y_def fmul_def using assms by (simp add: fl_nonneg fl_le_10000)
  then have k: "0 \<le> k \<and> k \<le> 10000"
    unfolding k_def using round_half_even_ge [of 0 y] round_half_even_le [of y 10000] by simp
  then have "\<bar>w\<bar> < 2 powi (0 + 1)" by (simp add: w_def)
  from fl_error_bound [OF this]
  have e3: "\<bar>fl w - w\<bar> \<le> 2 powi (0 - 52) / 2" by simp
  have a: "around4 c = fl w" by (simp add: around4_def fdiv_def w_def k_def y_def)
  have "\<bar>w - c\<bar> = \<bar>of_int k - c * 10000\<bar> / 10000" by (simp add: w_def abs_if field_simps)
  also have "\<dots> \<le> (1 / 2 + 2 powi (13 - 52) / 2) / 10000"
    using e1 e2 by (intro divide_right_mono) linarith+
  finally have e4: "\<bar>w - c\<bar> \<le> (1 / 2 + 2 powi (13 - 52) / 2) / 10000" .
  have "\<bar>fl w - c\<bar> \<le> 2 powi (0 - 52) / 2 + (1 / 2 + 2 powi (13 - 52) / 2) / 10000"
    using e3 e4 by linarith
  also have "\<dots> \<le> 51 / 1000000" by simp
  finally show ?thesis by (simp only: a)
qed

lemma score_loop_d_all_present:
  "set (map fst ws) \<subseteq> set (map fst features) \<Longrightarrow>
   score_loop_d ws features s =
     foldl (\<lambda>s (f, w). fadd s (fmul w (normalized_d (the (map_of features f))))) s ws"
proof (induction ws arbitrary: s)
  case Nil
  then show ?case by simp
next
  case (Cons x ws)
  obtain f w where x: "x = (f, w)" by (cases x)
  from Cons.prems have "f \<in> set (map fst features)" by (simp add: x)
  then obtain v where v: "map_of features f = Some v"
    by (metis map_of_eq_None_iff not_Some_eq set_map)
  from Cons.prems have "set (map fst ws) \<subseteq> set (map fst features)" by simp
  from Cons.IH [OF this] show ?case by (simp add: x v)
qed

lemma predict_d_complete:
  "set FEATURES \<subseteq> set (map fst features) \<Longrightarrow>
   predict_d npexp m now features =
     Inr \<lparr>score = around4 (calculate_score_d npexp m features),
          decision = fst (decide_d (calculate_score_d npexp m features)),
          confidence = around4 (snd (decide_d (calculate_score_d npexp m features))),
          explanation = generate_explanation_d m features,
          model_version = VERSION, timestamp = now\<rparr>"
  by (simp add: predict_d_def validate_features_def Let_def split_beta)

lemma calculate_score_cancelling:
  "calculate_score_d exp_rn (f64_model create_demo_model) cancelling_features = 1 / 2"
  by (simp add: calculate_score_d_def linear_sum_cancelling fmul_def fadd_def
      fdiv_def fl_0 fl_2 fl_half exp_rn_0)

lemma exact_sum_cancelling:
  "intercept (f64_model create_demo_model)
     + (\<Sum>(f, w) \<leftarrow> weights (f64_model create_demo_model).
          w * normalized (the (map_of cancelling_features f))) = 1 / 2"
  unfolding demo_weights_d demo_intercept_d
  by (simp add: cancelling_features_def normalized_def)

text \<open>
  C3, as the claim states it, fails in double arithmetic. At the input above the
  score returned is 0.5, the sigmoid of the running sum 0, while the intercept plus
  the sum of weight times normalized value is 0.5, whose sigmoid is not 0.5.
\<close>

theorem score_formula_counterexample:
  "calculate_score_d exp_rn (f64_model create_demo_model) cancelling_features = 1 / 2
   \<and> 1 / (1 + exp (- 2 * (intercept (f64_model create_demo_model)
        + (\<Sum>(f, w) \<leftarrow> weights (f64_model create_demo_model).
             w * normalized (the (map_of cancelling_features f)))))) \<noteq> 1 / 2"
proof -
  have "exp (- 1 :: real) < 1" by simp
  then have "1 / (1 + exp (- 1 :: real)) \<noteq> 1 / 2" by (simp add: field_simps)
  then show ?thesis
    unfolding exact_sum_cancelling calculate_score_cancelling by simp
qed

text \<open>
  C3, amended. When the feature dict has all 8 required features and the weight table
  weights only required features, no entry of the weight table is skipped: the score
  is \<open>1 / (1 + npexp (-s * 2))\<close> evaluated in double arithmetic (0 when \<open>npexp\<close>
  returns \<^verbatim>\<open>inf\<close>), where \<open>s\<close> is the intercept with weight times normalized value
  added for each entry in turn, in the order of the weight table. When \<open>npexp\<close>
  returns no negative number, the score lies in \<open>[0, 1]\<close>; it is returned unrounded.
  \<^verbatim>\<open>predict\<close> stores it rounded to 4 decimal digits: the stored value is the double
  nearest to \<open>k / 10000\<close> for an integer \<open>k\<close> from 0 to 10000, and differs from the
  score by at most 0.000051.
\<close>

theorem calculate_score_d_formula:
  "(\<forall>z e. npexp z = Some e \<longrightarrow> 0 \<le> e)
   \<and> set (map fst (weights m)) \<subseteq> set FEATURES \<and> set FEATURES \<subseteq> set (map fst features) \<longrightarrow>
     calculate_score_d npexp m features =
       (let s = foldl (\<lambda>s (f, w). fadd s (fmul w (normalized_d (the (map_of features f)))))
                  (intercept m) (weights m)
        in case npexp (fmul (- s) 2) of None \<Rightarrow> 0 | Some e \<Rightarrow> fdiv 1 (fadd 1 e))
     \<and> 0 \<le> calculate_score_d npexp m features \<and> calculate_score_d npexp m features \<le> 1
     \<and> (\<exists>p. predict_d npexp m now features = Inr p
          \<and> score p
              = fdiv (of_int (round_half_even (fmul (calculate_score_d npexp m features) 10000)))
                  10000
          \<and> (\<exists>k. 0 \<le> k \<and> k \<le> 10000 \<and> score p = fl (of_int k / 10000))
          \<and> \<bar>score p - calculate_score_d npexp m features\<bar> \<le> 51 / 1000000)"
proof
  assume h: "(\<forall>z e. npexp z = Some e \<longrightarrow> 0 \<le> e)
    \<and> set (map fst (weights m)) \<subseteq> set FEATURES \<and> set FEATURES \<subseteq> set (map fst features)"
  let ?s = "calculate_score_d npexp m features"
  from h have "set (map fst (weights m)) \<subseteq> set (map fst features)" by blast
  from score_loop_d_all_present [OF this]
  have f: "?s =
       (let s = foldl (\<lambda>s (f, w). fadd s (fmul w (normalized_d (the (map_of features f)))))
                  (intercept m) (weights m)
        in case npexp (fmul (- s) 2) of None \<Rightarrow> 0 | Some e \<Rightarrow> fdiv 1 (fadd 1 e))"
    by (simp add: calculate_score_d_def linear_sum_d_def)
  from h have n: "\<forall>z e. npexp z = Some e \<longrightarrow> 0 \<le> e" by blast
  have r: "0 \<le> ?s \<and> ?s \<le> 1" using n by (rule calculate_score_d_range)
  define k where "k = round_half_even (fmul ?s 10000)"
  have y: "0 \<le> fmul ?s 10000 \<and> fmul ?s 10000 \<le> 10000"
    unfolding fmul_def using r by (simp add: fl_nonneg fl_le_10000)
  then have k: "0 \<le> k \<and> k \<le> 10000"
    unfolding k_def
    using round_half_even_ge [of 0 "fmul ?s 10000"] round_half_even_le [of "fmul ?s 10000" 10000]
    by simp
  have a: "around4 ?s = fl (of_int k / 10000)" by (simp add: around4_def fdiv_def k_def)
  have e: "\<bar>around4 ?s - ?s\<bar> \<le> 51 / 1000000"
    using r by (intro around4_error) simp_all
  from h have p: "set FEATURES \<subseteq> set (map fst features)" by blast
  have "\<exists>p. predict_d npexp m now features = Inr p
          \<and> score p = fdiv (of_int (round_half_even (fmul ?s 10000))) 10000
          \<and> (\<exists>k. 0 \<le> k \<and> k \<le> 10000 \<and> score p = fl (of_int k / 10000))
          \<and> \<bar>score p - ?s\<bar> \<le> 51 / 1000000"
    using k a e by (auto simp: predict_d_complete [OF p] around4_def)
  with f r show "?s =
       (let s = foldl (\<lambda>s (f, w). fadd s (fmul w (normalized_d (the (map_of features f)))))
                  (intercept m) (weights m)
        in case npexp (fmul (- s) 2) of None \<Rightarrow> 0 | Some e \<Rightarrow> fdiv 1 (fadd 1 e))
     \<and> 0 \<le> ?s \<and> ?s \<le> 1
     \<and> (\<exists>p. predict_d npexp m now features = Inr p
          \<and> score p = fdiv (of_int (round_half_even (fmul ?s 10000))) 10000
          \<and> (\<exists>k. 0 \<le> k \<and> k \<le> 10000 \<and> score p = fl (of_int k / 10000))
          \<and> \<bar>score p - ?s\<bar> \<le> 51 / 1000000)"
    by blast
qed

theorem calculate_score_d_formula_witness:
  "0 \<le> calculate_score_d exp_rn (f64_model create_demo_model) cancelling_features
   \<and> calculate_score_d exp_rn (f64_model create_demo_model) cancelling_features \<le> 1
   \<and> (\<exists>p. predict_d exp_rn (f64_model create_demo_model) ''2024-01-01T00:00:00''
             cancelling_features = Inr p
        \<and> (\<exists>k. 0 \<le> k \<and> k \<le> 10000 \<and> score p = fl (of_int k / 10000))
        \<and> \<bar>score p
             - calculate_score_d exp_rn (f64_model create_demo_model) cancelling_features\<bar>
            \<le> 51 / 1000000)"
proof -
  have n: "\<forall>z e. exp_rn z = Some e \<longrightarrow> 0 \<le> e" using exp_rn_nonneg by blast
  have a: "set (map fst (weights (f64_model create_demo_model))) \<subseteq> set FEATURES
      \<and> set FEATURES \<subseteq> set (map fst cancelling_features)"
    by (simp add: f64_model_def create_demo_model_def FEATURES_def cancelling_features_def)
  from calculate_score_d_formula [of exp_rn "f64_model create_demo_model" cancelling_features
      "''2024-01-01T00:00:00''"] n a
  show ?thesis by blast
qed

section \<open>Range of score and confidence\<close>

lemma linear_sum_saturating:
  "linear_sum_d (f64_model create_demo_model) saturating_features = 60001 / 2"
  unfolding linear_sum_d_def demo_weights_d demo_intercept_d
  by (simp add: saturating_features_def normalized_d_0 normalized_d_e7 fmul_0
      fl_three_tenths fmul_three_tenths_e5 fadd_0 fl_half fadd_def fl_30000_5)

lemma linear_sum_vanishing:
  "linear_sum_d (f64_model create_demo_model) vanishing_features = - (69999 / 2)"
  unfolding linear_sum_d_def demo_weights_d demo_intercept_d
  by (simp add: vanishing_features_def normalized_d_0 normalized_d_e7 fmul_0
      fl_minus fl_seven_twentieths fmul_seven_twentieths_e5 fadd_0 fl_half fadd_def
      fl_34999_5)

lemma calculate_score_saturating:
  "calculate_score_d exp_rn (f64_model create_demo_model) saturating_features = 1"
proof -
  have z: "fmul (- (60001 / 2)) 2 = - 60001" by (simp add: fmul_def fl_minus fl_60001)
  show ?thesis
    unfolding calculate_score_d_def linear_sum_saturating Let_def z exp_rn_underflow
    by (simp add: fadd_def fdiv_def fl_1)
qed

lemma calculate_score_vanishing:
  "calculate_score_d exp_rn (f64_model create_demo_model) vanishing_features = 0"
proof -
  have z: "fmul (- (- (69999 / 2))) 2 = 69999" by (simp add: fmul_def fl_69999)
  show ?thesis
    unfolding calculate_score_d_def linear_sum_vanishing Let_def z exp_rn_overflow by simp
qed

lemma decide_d_one: "snd (decide_d 1) = 1"
  by (simp add: decide_d_def THRESHOLD_def Let_def fsub_def fdiv_def fl_half fl_1)

text \<open>
  C10, as the claim states it, fails in double arithmetic, before any rounding to 4
  digits. With \<^verbatim>\<open>payment_history_score\<close> at 10000000 the exponential underflows
  to 0, the score is exactly 1 and the confidence computed from it is exactly 1.
  With \<^verbatim>\<open>debt_to_income\<close> at 10000000 the exponential overflows and the score is
  exactly 0.
\<close>

theorem score_attains_bounds_counterexample:
  "calculate_score_d exp_rn (f64_model create_demo_model) saturating_features = 1
   \<and> snd (decide_d (calculate_score_d exp_rn (f64_model create_demo_model)
            saturating_features)) = 1
   \<and> calculate_score_d exp_rn (f64_model create_demo_model) vanishing_features = 0"
  unfolding calculate_score_saturating calculate_score_vanishing
  by (simp add: decide_d_one)

text \<open>
  C10, amended. When \<open>npexp\<close> returns no negative number, for every feature dict the
  unrounded score lies in the closed interval \<open>[0, 1]\<close> and the confidence computed
  from it lies in \<open>[0, 1]\<close>; so do the score and the confidence that \<^verbatim>\<open>predict\<close>
  stores when all 8 required features are present.
\<close>

theorem score_closed_interval:
  "(\<forall>z e. npexp z = Some e \<longrightarrow> 0 \<le> e) \<longrightarrow>
     0 \<le> calculate_score_d npexp m features \<and> calculate_score_d npexp m features \<le> 1
     \<and> 0 \<le> snd (decide_d (calculate_score_d npexp m features))
     \<and> snd (decide_d (calculate_score_d npexp m features)) \<le> 1
     \<and> (set FEATURES \<subseteq> set (map fst features) \<longrightarrow>
          (\<exists>p. predict_d npexp m now features = Inr p
             \<and> 0 \<le> score p \<and> score p \<le> 1 \<and> 0 \<le> confidence p \<and> confidence p \<le> 1))"
proof
  assume n: "\<forall>z e. npexp z = Some e \<longrightarrow> 0 \<le> e"
  let ?s = "calculate_score_d npexp m features"
  have r: "0 \<le> ?s \<and> ?s \<le> 1" using n by (rule calculate_score_d_range)
  have c: "0 \<le> snd (decide_d ?s) \<and> snd (decide_d ?s) \<le> 1" by (rule decide_d_range)
  have rs: "0 \<le> around4 ?s \<and> around4 ?s \<le> 1"
    using r by (intro around4_range) simp_all
  have rc: "0 \<le> around4 (snd (decide_d ?s)) \<and> around4 (snd (decide_d ?s)) \<le> 1"
    using c by (intro around4_range) simp_all
  from r c rs rc show "0 \<le> ?s \<and> ?s \<le> 1
     \<and> 0 \<le> snd (decide_d ?s) \<and> snd (decide_d ?s) \<le> 1
     \<and> (set FEATURES \<subseteq> set (map fst features) \<longrightarrow>
          (\<exists>p. predict_d npexp m now features = Inr p
             \<and> 0 \<le> score p \<and> score p \<le> 1 \<and> 0 \<le> confidence p \<and> confidence p \<le> 1))"
    by (simp add: predict_d_complete)
qed

theorem score_closed_interval_witness:
  "0 \<le> calculate_score_d exp_rn (f64_model create_demo_model) saturating_features
   \<and> calculate_score_d exp_rn (f64_model create_demo_model) saturating_features \<le> 1
   \<and> (\<exists>p. predict_d exp_rn (f64_model create_demo_model) ''2024-01-01T00:00:00''
             saturating_features = Inr p
        \<and> 0 \<le> score p \<and> score p \<le> 1 \<and> 0 \<le> confidence p \<and> confidence p \<le> 1)"
proof -
  have n: "\<forall>z e. exp_rn z = Some e \<longrightarrow> 0 \<le> e" using exp_rn_nonneg by blast
  have a: "set FEATURES \<subseteq> set (map fst saturating_features)"
    by (simp add: FEATURES_def saturating_features_def)
  from score_closed_interval [of exp_rn "f64_model create_demo_model" saturating_features
      "''2024-01-01T00:00:00''"] n a
  show ?thesis by blast
qed

end
